theory Spec2Isabelle
  imports Complex_Main "HOL-Library.AList"
begin

section \<open>Strings as the server handles them\<close>

text \<open>
  A string is a list of code units; the model keeps to the code units below 256, which
  is where every character the code tests for lives except the whitespace of the upper
  planes. \<open>is_space\<close> is the class \<^verbatim>\<open>\s\<close> of a JavaScript regular expression on
  that range (tab, line feed, vertical tab, form feed, carriage return, space, no-break
  space), which is also what \<^verbatim>\<open>String.prototype.trim\<close> removes at both ends.
  \<open>is_digit\<close> is \<^verbatim>\<open>\d\<close>, the ten ASCII digits.
\<close>

definition is_space :: "char \<Rightarrow> bool" where
  "is_space c = (let n = (of_char c :: nat) in (9 \<le> n \<and> n \<le> 13) \<or> n = 32 \<or> n = 160)"

definition is_digit :: "char \<Rightarrow> bool" where
  "is_digit c = (let n = (of_char c :: nat) in 48 \<le> n \<and> n \<le> 57)"

definition trim :: "string \<Rightarrow> string" where
  "trim s = rev (dropWhile is_space (rev (dropWhile is_space s)))"

text \<open>\<^verbatim>\<open>s.replace(/\s/g, '')\<close>: every whitespace code unit is dropped.\<close>

definition remove_spaces :: "string \<Rightarrow> string" where
  "remove_spaces s = filter (\<lambda>c. \<not> is_space c) s"

text \<open>
  \<^verbatim>\<open>s.split(c)\<close> for a one-character separator: one part more than there are
  separators, the empty string giving the single empty part.
\<close>

fun split_on :: "char \<Rightarrow> string \<Rightarrow> string list" where
  "split_on c [] = [[]]"
| "split_on c (x # xs) =
     (if x = c then [] # split_on c xs
      else (case split_on c xs of [] \<Rightarrow> [[x]] | p # ps \<Rightarrow> (x # p) # ps))"

subsection \<open>The pattern \<^verbatim>\<open>/(\d{3})[- ]?(\d{8})/\<close>\<close>

text \<open>
  \<open>digits n s\<close> is \<^verbatim>\<open>\d{n}\<close> at the head of \<open>s\<close>: the text matched and what
  follows it. \<open>match_here\<close> is the whole pattern anchored at the head, the optional
  separator tried first with the separator and then without (the quantifier \<^verbatim>\<open>?\<close>
  is greedy and backtracks); \<open>regex_match\<close> is the unanchored search of
  \<^verbatim>\<open>String.prototype.match\<close>, which returns the leftmost match, here as the pair
  of its two groups.
\<close>

definition digits :: "nat \<Rightarrow> string \<Rightarrow> (string \<times> string) option" where
  "digits n s =
     (if n \<le> length s \<and> list_all is_digit (take n s) then Some (take n s, drop n s) else None)"

definition is_sep :: "char \<Rightarrow> bool" where
  "is_sep c = (c = CHR ''-'' \<or> c = CHR '' '')"

definition with_sep :: "string \<Rightarrow> (string \<times> string) option" where
  "with_sep r = (case r of [] \<Rightarrow> None | c # r' \<Rightarrow> if is_sep c then digits 8 r' else None)"

definition match_here :: "string \<Rightarrow> (string \<times> string) option" where
  "match_here s =
     (case digits 3 s of
        None \<Rightarrow> None
      | Some (g1, r) \<Rightarrow>
          (case with_sep r of
             Some (g2, _) \<Rightarrow> Some (g1, g2)
           | None \<Rightarrow>
               (case digits 8 r of
                  Some (g2, _) \<Rightarrow> Some (g1, g2)
                | None \<Rightarrow> None)))"

fun regex_match :: "string \<Rightarrow> (string \<times> string) option" where
  "regex_match [] = match_here []"
| "regex_match (c # cs) =
     (case match_here (c # cs) of Some g \<Rightarrow> Some g | None \<Rightarrow> regex_match cs)"

subsection \<open>splitMAWB\<close>

text \<open>
  The result \<^verbatim>\<open>{ prefix, awbNo }\<close> is the pair \<open>(prefix, awbNo)\<close>. The test
  \<^verbatim>\<open>matches && matches.length === 3\<close> holds for every match of a pattern with two
  groups, so it is the \<open>Some\<close> branch.
\<close>

definition splitMAWB :: "string \<Rightarrow> string \<times> string" where
  "splitMAWB raw =
     (let mawb = remove_spaces (trim raw);
          parts = split_on CHR ''-'' mawb
      in if length parts = 2 then (parts ! 0, parts ! 1)
         else (case regex_match mawb of
                 Some (g1, g2) \<Rightarrow> (g1, g2)
               | None \<Rightarrow> ([], [])))"

subsection \<open>The pattern as the specification words it\<close>

text \<open>
  \<open>occurs s pre g1 g2\<close>: after the text \<open>pre\<close>, the string \<open>s\<close> goes on with three
  digits \<open>g1\<close>, an optional separator (a hyphen or a space) and eight digits \<open>g2\<close>.
  This is the reading of "three digits, optional separator, eight digits, anywhere in the
  string", written without reference to the matcher above.
\<close>

definition occurs :: "string \<Rightarrow> string \<Rightarrow> string \<Rightarrow> string \<Rightarrow> bool" where
  "occurs s pre g1 g2 =
     (\<exists>sep post. s = pre @ g1 @ sep @ g2 @ post
        \<and> (sep = [] \<or> sep = ''-'' \<or> sep = '' '')
        \<and> length g1 = 3 \<and> list_all is_digit g1
        \<and> length g2 = 8 \<and> list_all is_digit g2)"

subsection \<open>Numbers in template strings, thrown values\<close>

text \<open>
  \<open>show_nat\<close> and \<open>show_int\<close> are what a template string makes of an integer: its
  decimal digits, with a minus sign below zero.
\<close>

fun show_nat :: "nat \<Rightarrow> string" where
  "show_nat n =
     (if n < 10 then [char_of (48 + n)]
      else show_nat (n div 10) @ [char_of (48 + n mod 10)])"

declare show_nat.simps [simp del]

definition show_int :: "int \<Rightarrow> string" where
  "show_int i = (if i < 0 then CHR ''-'' # show_nat (nat (- i)) else show_nat (nat i))"

text \<open>
  \<open>read_nat\<close> reads a string of decimal digits as the number it writes, most
  significant digit first. It is not part of the server: it says what "the row number"
  in a message means.
\<close>

definition read_nat :: "string \<Rightarrow> nat" where
  "read_nat s = foldl (\<lambda>a c. 10 * a + (of_char c - 48)) 0 s"

text \<open>
  A thrown value is an \<^verbatim>\<open>Error\<close> object: its name and its message.
  \<open>to_string\<close> is \<^verbatim>\<open>Error.prototype.toString\<close>, which a template string
  applies to it.
\<close>

datatype thrown = Thrown string string

fun message :: "thrown \<Rightarrow> string" where
  "message (Thrown n m) = m"

fun to_string :: "thrown \<Rightarrow> string" where
  "to_string (Thrown n m) = (if n = [] then m else if m = [] then n else n @ '': '' @ m)"

definition Error :: "string \<Rightarrow> thrown" where
  "Error m = Thrown ''Error'' m"

definition TypeError :: "string \<Rightarrow> thrown" where
  "TypeError m = Thrown ''TypeError'' m"

section \<open>The schema\<close>

datatype TrackJobStatus = pending | processing | completed | failed | cancelled | paused

text \<open>
  \<^verbatim>\<open>InsertTrackJob\<close> is the job row without the columns the schema omits;
  \<^verbatim>\<open>TrackJob\<close> is the full row. Ids are JavaScript numbers holding integers,
  counts are the non-negative integers the code stores, a timestamp is the reading of the
  clock as a number.
\<close>

record InsertTrackJob =
  filename :: string
  totalCount :: nat

record TrackJob = InsertTrackJob +
  job_id :: int
  processedCount :: nat
  status :: TrackJobStatus
  createdAt :: nat
  updatedAt :: nat

text \<open>
  \<^verbatim>\<open>InsertTrackResult\<close> and \<^verbatim>\<open>TrackResult\<close>: the table
  \<^verbatim>\<open>track_results\<close> has no column naming a job. The fields \<^verbatim>\<open>status\<close>,
  \<^verbatim>\<open>id\<close> and \<^verbatim>\<open>createdAt\<close> of a result carry the prefix \<open>result_\<close> here,
  the job's fields having taken the plain names.
\<close>

record InsertTrackResult =
  mawb :: string
  prefix :: string
  awbNo :: string
  result_status :: string
  origin :: string
  dest :: string
  pcs :: string
  grossWt :: string
  lastAct :: string
  lastActDt :: string
  doUrl :: string

record TrackResult = InsertTrackResult +
  result_id :: int
  result_createdAt :: nat

section \<open>MemStorage\<close>

text \<open>
  A JavaScript \<^verbatim>\<open>Map\<close> keeps its keys in insertion order and \<^verbatim>\<open>set\<close> on a
  key already present replaces the value where it stands: an association list with
  \<open>AList.update\<close>. \<^verbatim>\<open>Array.from(m.values())\<close> is \<open>map snd\<close>. Every
  \<^verbatim>\<open>new Date()\<close> of the class is the argument \<open>now\<close>. A method that throws
  returns \<open>Inl\<close> with the value thrown and leaves the storage as it was.
\<close>

record MemStorage =
  trackResults :: "(int \<times> TrackResult) list"
  trackJobs :: "(int \<times> TrackJob) list"
  currentTrackResultId :: int
  currentTrackJobId :: int

definition new_MemStorage :: MemStorage where
  "new_MemStorage =
     \<lparr>trackResults = [], trackJobs = [], currentTrackResultId = 1, currentTrackJobId = 1\<rparr>"

definition createTrackResult :: "InsertTrackResult \<Rightarrow> nat \<Rightarrow> MemStorage \<Rightarrow> TrackResult \<times> MemStorage" where
  "createTrackResult insertResult now s =
     (let i = currentTrackResultId s;
          result = InsertTrackResult.extend insertResult
                     (TrackResult.fields i now)
      in (result,
          s\<lparr>currentTrackResultId := i + 1,
            trackResults := AList.update i result (trackResults s)\<rparr>))"

definition getTrackResultsByJob :: "int \<Rightarrow> MemStorage \<Rightarrow> TrackResult list" where
  "getTrackResultsByJob jobId s = map snd (trackResults s)"

definition createTrackJob :: "InsertTrackJob \<Rightarrow> nat \<Rightarrow> MemStorage \<Rightarrow> TrackJob \<times> MemStorage" where
  "createTrackJob insertJob now s =
     (let i = currentTrackJobId s;
          job = InsertTrackJob.extend insertJob
                  (TrackJob.fields i 0 pending now now)
      in (job,
          s\<lparr>currentTrackJobId := i + 1,
            trackJobs := AList.update i job (trackJobs s)\<rparr>))"

definition getTrackJob :: "int \<Rightarrow> MemStorage \<Rightarrow> TrackJob option" where
  "getTrackJob i s = map_of (trackJobs s) i"

definition getTrackJobs :: "MemStorage \<Rightarrow> TrackJob list" where
  "getTrackJobs s = map snd (trackJobs s)"

definition not_found :: "int \<Rightarrow> thrown" where
  "not_found i = Error (''Track job with id '' @ show_int i @ '' not found'')"

definition updateTrackJobStatus ::
  "int \<Rightarrow> TrackJobStatus \<Rightarrow> nat \<Rightarrow> MemStorage \<Rightarrow> thrown + (TrackJob \<times> MemStorage)" where
  "updateTrackJobStatus i st now s =
     (case getTrackJob i s of
        None \<Rightarrow> Inl (not_found i)
      | Some job \<Rightarrow>
          (let updatedJob = job\<lparr>status := st, updatedAt := now\<rparr>
           in Inr (updatedJob, s\<lparr>trackJobs := AList.update i updatedJob (trackJobs s)\<rparr>)))"

definition updateTrackJobProgress ::
  "int \<Rightarrow> nat \<Rightarrow> nat \<Rightarrow> MemStorage \<Rightarrow> thrown + (TrackJob \<times> MemStorage)" where
  "updateTrackJobProgress i n now s =
     (case getTrackJob i s of
        None \<Rightarrow> Inl (not_found i)
      | Some job \<Rightarrow>
          (let updatedJob = job\<lparr>processedCount := n, updatedAt := now\<rparr>
           in Inr (updatedJob, s\<lparr>trackJobs := AList.update i updatedJob (trackJobs s)\<rparr>)))"

section \<open>The control route\<close>

text \<open>
  \<^verbatim>\<open>POST /api/track/jobs/:id/control\<close>. The request arrives parsed: \<open>jobId\<close> is the
  result of \<^verbatim>\<open>parseInt\<close> (\<open>None\<close> for \<^verbatim>\<open>NaN\<close>), \<open>action\<close> is the result of the
  \<^verbatim>\<open>z.enum\<close> parse (\<open>Inl\<close> the error it throws). The response is the status code with
  its body.
\<close>

datatype Action = pause | resume | cancel

datatype Response =
    Status400 string
  | Status404 string
  | Status200 TrackJob string

fun action_name :: "Action \<Rightarrow> string" where
  "action_name pause = ''pause''"
| "action_name resume = ''resume''"
| "action_name cancel = ''cancel''"

fun newStatus :: "Action \<Rightarrow> TrackJobStatus" where
  "newStatus pause = paused"
| "newStatus resume = processing"
| "newStatus cancel = cancelled"

definition control_route ::
  "int option \<Rightarrow> thrown + Action \<Rightarrow> nat \<Rightarrow> MemStorage \<Rightarrow> Response \<times> MemStorage" where
  "control_route jobId action now s =
     (case jobId of
        None \<Rightarrow> (Status400 ''Invalid job ID'', s)
      | Some i \<Rightarrow>
          (case action of
             Inl e \<Rightarrow> (Status400 (message e), s)
           | Inr a \<Rightarrow>
               (case getTrackJob i s of
                  None \<Rightarrow> (Status404 ''Job not found'', s)
                | Some job \<Rightarrow>
                    (case updateTrackJobStatus i (newStatus a) now s of
                       Inl e \<Rightarrow> (Status400 (message e), s)
                     | Inr (updatedJob, s') \<Rightarrow>
                         (Status200 updatedJob (''Job '' @ action_name a @ ''d successfully''),
                          s')))))"

section \<open>The file route: the pacing interval\<close>








section \<open>Processing a CSV file\<close>

text \<open>
  \<^verbatim>\<open>processCSVFile(fileBuffer, jobId, delay = 100, wss)\<close>. The file enters as the
  outcome of its parse, the delay as the argument of the call (\<open>None\<close> when the caller
  passes none, and the default 100 applies), and the socket server is taken as attached,
  as the route attaches it (without one \<^verbatim>\<open>broadcastMessage\<close> returns at once).
  \<^verbatim>\<open>processExcelFile\<close> runs the same loop on the rows of a sheet.
\<close>

subsection \<open>Events, the lookup, the world\<close>

text \<open>
  The four messages that \<^verbatim>\<open>broadcastMessage\<close> is given, by their \<^verbatim>\<open>type\<close>:
  \<open>Log message level\<close>, \<open>Progress current total\<close>, \<open>Result data\<close>,
  \<open>Complete message\<close>. An event is the message with the job id that
  \<^verbatim>\<open>broadcastMessage\<close> adds.
\<close>

datatype LogLevel = info | success | warn | error

datatype Message =
    Log string LogLevel
  | Progress nat nat
  | Result InsertTrackResult
  | Complete string

type_synonym Event = "int \<times> Message"

text \<open>
  What \<^verbatim>\<open>trackAWB\<close> resolves to: the fields of \<^verbatim>\<open>Partial<TrackResult>\<close> that
  the loop reads, each possibly absent. \<open>or_empty\<close> is \<^verbatim>\<open>v || ''\<close>.
\<close>

record PartialTrackResult =
  p_status :: "string option"
  p_origin :: "string option"
  p_dest :: "string option"
  p_pcs :: "string option"
  p_grossWt :: "string option"
  p_lastAct :: "string option"
  p_lastActDt :: "string option"
  p_doUrl :: "string option"

definition or_empty :: "string option \<Rightarrow> string" where
  "or_empty v = (case v of None \<Rightarrow> [] | Some x \<Rightarrow> x)"

text \<open>
  The surroundings of a run:
  \<^item> \<open>trackAWB E n p a\<close> is the outcome of the call \<^verbatim>\<open>trackAWB(p, a)\<close> made for
    row \<open>n\<close>: \<open>Inl\<close> the value it throws, \<open>Inr\<close> the record it resolves to;
  \<^item> \<open>clock E k\<close> is the time that \<^verbatim>\<open>new Date()\<close> gives at the storage update
    number \<open>k\<close> of the run;
  \<^item> \<open>control E n\<close> are the control requests (job id and action, in order of arrival)
    that the server handles after the progress update of row \<open>n\<close> and before the loop
    next touches the storage, that is while the loop waits out the pacing delay
    \<^verbatim>\<open>await new Promise(resolve => setTimeout(resolve, delay))\<close> or the lookup that
    follows it; \<open>control E 0\<close> are those handled after the job is marked as processing
    and before the loop first touches the storage.
  The server runs one handler at a time, and the loop gives way to a handler only at these
  two awaits: the timer and the network call of the lookup. Between the start of a row
  and its lookup the loop only broadcasts, so a request handled during the lookup has the
  effect of one handled just before the row.
\<close>

record Env =
  trackAWB :: "nat \<Rightarrow> string \<Rightarrow> string \<Rightarrow> thrown + PartialTrackResult"
  clock :: "nat \<Rightarrow> nat"
  control :: "nat \<Rightarrow> (int \<times> Action) list"

text \<open>
  The world a run acts on: the storage, the events handed to \<^verbatim>\<open>broadcastMessage\<close> so
  far (oldest first; with a socket server attached each goes to every open client), the
  number of storage updates made, which is where the clock is read, and the delays handed
  to \<^verbatim>\<open>setTimeout\<close> so far (oldest first). \<open>stored s w\<close> is the world after an
  update that leaves the storage \<open>s\<close>; \<open>handle_control\<close> is the control route run on
  the world, its response going to the caller of the route; \<open>handle_requests E n\<close>
  handles the requests \<open>control E n\<close>; \<open>pacing_wait E delay n\<close> is
  \<^verbatim>\<open>await new Promise(resolve => setTimeout(resolve, delay))\<close> after row \<open>n\<close>: the
  timer is set with \<open>delay\<close> as it is, and the requests of that wait are handled.
\<close>

record World =
  storage :: MemStorage
  sent :: "Event list"
  calls :: nat
  timers :: "rat list"

definition now :: "Env \<Rightarrow> World \<Rightarrow> nat" where
  "now E w = clock E (calls w)"

definition stored :: "MemStorage \<Rightarrow> World \<Rightarrow> World" where
  "stored s w = w\<lparr>storage := s, calls := Suc (calls w)\<rparr>"

definition broadcastMessage :: "int \<Rightarrow> Message \<Rightarrow> World \<Rightarrow> World" where
  "broadcastMessage jobId m w = w\<lparr>sent := sent w @ [(jobId, m)]\<rparr>"

definition handle_control :: "Env \<Rightarrow> int \<times> Action \<Rightarrow> World \<Rightarrow> World" where
  "handle_control E req w =
     stored (snd (control_route (Some (fst req)) (Inr (snd req)) (now E w) (storage w))) w"

definition handle_requests :: "Env \<Rightarrow> nat \<Rightarrow> World \<Rightarrow> World" where
  "handle_requests E n w = fold (handle_control E) (control E n) w"

definition pacing_wait :: "Env \<Rightarrow> rat \<Rightarrow> nat \<Rightarrow> World \<Rightarrow> World" where
  "pacing_wait E delay n w = handle_requests E n (w\<lparr>timers := timers w @ [delay]\<rparr>)"

subsection \<open>The column of the identifier\<close>

text \<open>
  A record of the parsed file is the list of its columns with their values, in the order
  of \<^verbatim>\<open>Object.keys\<close>. \<open>toUpperCase\<close> maps the ASCII letters; on the other code units
  it is the identity here, which decides \<^verbatim>\<open>includes('MAWB')\<close> as the full mapping
  does, since that maps no other code unit to one of M, A, W, B.
\<close>

type_synonym CsvRecord = "(string \<times> string) list"

definition toUpperCase :: "string \<Rightarrow> string" where
  "toUpperCase s =
     map (\<lambda>c. let n = (of_char c :: nat) in if 97 \<le> n \<and> n \<le> 122 then char_of (n - 32) else c) s"

fun includes_str :: "string \<Rightarrow> string \<Rightarrow> bool" where
  "includes_str [] sub = (sub = [])"
| "includes_str (c # cs) sub = (take (length sub) (c # cs) = sub \<or> includes_str cs sub)"

definition find_mawb :: "string list \<Rightarrow> string option" where
  "find_mawb headers = find (\<lambda>h. includes_str (toUpperCase h) ''MAWB'') headers"

subsection \<open>One row\<close>

definition row_tag :: "nat \<Rightarrow> string" where
  "row_tag n = ''[Row '' @ show_nat n @ ''] ''"

text \<open>
  The \<^verbatim>\<open>try\<close> block of the loop body with its \<^verbatim>\<open>catch\<close>: the lookup, and on
  success the result saved and announced.
\<close>

definition track_and_save ::
  "Env \<Rightarrow> int \<Rightarrow> nat \<Rightarrow> string \<Rightarrow> string \<Rightarrow> string \<Rightarrow> World \<Rightarrow> World" where
  "track_and_save E jobId n raw pfx awb w =
     (let w1 = broadcastMessage jobId
                 (Log (row_tag n @ ''Tracking MAWB: '' @ raw @ '' (prefix: '' @ pfx
                         @ '', awbno: '' @ awb @ '')'') info) w
      in case trackAWB E n pfx awb of
           Inl e \<Rightarrow>
             broadcastMessage jobId
               (Log (row_tag n @ ''Error tracking '' @ raw @ '': '' @ to_string e) error) w1
         | Inr res \<Rightarrow>
             (let trackResult =
                    \<lparr>mawb = raw, prefix = pfx, awbNo = awb,
                     result_status = or_empty (p_status res),
                     origin = or_empty (p_origin res),
                     dest = or_empty (p_dest res),
                     pcs = or_empty (p_pcs res),
                     grossWt = or_empty (p_grossWt res),
                     lastAct = or_empty (p_lastAct res),
                     lastActDt = or_empty (p_lastActDt res),
                     doUrl = or_empty (p_doUrl res)\<rparr>;
                  w2 = stored (snd (createTrackResult trackResult (now E w1) (storage w1))) w1;
                  w3 = broadcastMessage jobId (Log (row_tag n @ ''Success: '' @ raw) success) w2
              in broadcastMessage jobId (Result trackResult) w3))"

text \<open>
  The body of the \<^verbatim>\<open>for\<close> loop for the row numbered \<open>n\<close> (the value of
  \<^verbatim>\<open>processedCount\<close> after its increment). \<open>Inl\<close> is a throw that leaves the loop,
  with the world at that moment: the identifier missing from the record
  (\<^verbatim>\<open>undefined.trim()\<close>), or the progress update failing. A row that is skipped
  (\<^verbatim>\<open>continue\<close>) awaits nothing, so no control request is handled after it.
\<close>

definition process_record ::
  "Env \<Rightarrow> int \<Rightarrow> string \<Rightarrow> nat \<Rightarrow> rat \<Rightarrow> nat \<Rightarrow> CsvRecord \<Rightarrow> World \<Rightarrow> (thrown \<times> World) + World" where
  "process_record E jobId mawbKey rowTotal delay n row w =
     (case map_of row mawbKey of
        None \<Rightarrow> Inl (TypeError ''Cannot read properties of undefined (reading 'trim')'', w)
      | Some raw \<Rightarrow>
          (case splitMAWB raw of
             (pfx, awb) \<Rightarrow>
               if pfx = [] \<or> awb = [] then
                 Inr (broadcastMessage jobId
                        (Log (row_tag n @ ''Skipping invalid MAWB: '' @ raw) warn) w)
               else
                 (let w1 = track_and_save E jobId n raw pfx awb w
                  in case updateTrackJobProgress jobId n (now E w1) (storage w1) of
                       Inl e \<Rightarrow> Inl (e, w1)
                     | Inr (_, s) \<Rightarrow>
                         Inr (pacing_wait E delay n
                                (broadcastMessage jobId (Progress n rowTotal) (stored s w1))))))"

subsection \<open>The loop and the function\<close>

text \<open>
  \<open>for_records\<close> is the \<^verbatim>\<open>for\<close> loop: the records still to visit and the number
  of rows visited; it returns that number when the records are exhausted.
\<close>

fun for_records ::
  "Env \<Rightarrow> int \<Rightarrow> string \<Rightarrow> nat \<Rightarrow> rat \<Rightarrow> CsvRecord list \<Rightarrow> nat \<Rightarrow> World
     \<Rightarrow> (thrown \<times> World) + (nat \<times> World)" where
  "for_records E jobId mawbKey rowTotal delay [] n w = Inr (n, w)"
| "for_records E jobId mawbKey rowTotal delay (row # rest) n w =
     (case process_record E jobId mawbKey rowTotal delay (Suc n) row w of
        Inl e \<Rightarrow> Inl e
      | Inr w' \<Rightarrow> for_records E jobId mawbKey rowTotal delay rest (Suc n) w')"

text \<open>
  The \<^verbatim>\<open>try\<close> block of \<^verbatim>\<open>processCSVFile\<close>. \<open>parsed\<close> is the outcome of the CSV
  parser on the file: \<open>Inl\<close> what it throws, \<open>Inr\<close> the records.
  \<^verbatim>\<open>Object.keys(records[0])\<close> throws when there is no record. \<open>default_100\<close> is the
  default of the parameter \<^verbatim>\<open>delay\<close>.
\<close>

definition default_100 :: "rat option \<Rightarrow> rat" where
  "default_100 arg = (case arg of None \<Rightarrow> 100 | Some d \<Rightarrow> d)"

definition processCSVFile_try ::
  "Env \<Rightarrow> thrown + CsvRecord list \<Rightarrow> int \<Rightarrow> rat option \<Rightarrow> World
     \<Rightarrow> (thrown \<times> World) + (nat \<times> World)" where
  "processCSVFile_try E parsed jobId delay_arg w =
     (case parsed of
        Inl e \<Rightarrow> Inl (e, w)
      | Inr records \<Rightarrow>
          (case records of
             [] \<Rightarrow> Inl (TypeError ''Cannot convert undefined or null to object'', w)
           | first # _ \<Rightarrow>
               (case find_mawb (map fst first) of
                  None \<Rightarrow> Inl (Error ''MAWB column not found in CSV'', w)
                | Some mawbKey \<Rightarrow>
                    (let rowTotal = length records;
                         delay = default_100 delay_arg
                     in case updateTrackJobStatus jobId processing (now E w) (storage w) of
                          Inl e \<Rightarrow> Inl (e, w)
                        | Inr (_, s) \<Rightarrow>
                            (case for_records E jobId mawbKey rowTotal delay records 0
                                    (handle_requests E 0 (stored s w)) of
                               Inl e \<Rightarrow> Inl e
                             | Inr (visited, w') \<Rightarrow>
                                 (case updateTrackJobStatus jobId completed (now E w') (storage w') of
                                    Inl e \<Rightarrow> Inl (e, w')
                                  | Inr (_, s') \<Rightarrow>
                                      Inr (visited,
                                           broadcastMessage jobId
                                             (Complete (''Tracking completed. Processed ''
                                                @ show_nat visited @ '' records.''))
                                             (stored s' w'))))))))"

text \<open>
  \<^verbatim>\<open>processCSVFile\<close>: the \<^verbatim>\<open>catch\<close> marks the job failed and throws the error
  again; when marking fails, that failure is what is thrown.
\<close>

definition processCSVFile ::
  "Env \<Rightarrow> thrown + CsvRecord list \<Rightarrow> int \<Rightarrow> rat option \<Rightarrow> World
     \<Rightarrow> (thrown \<times> World) + (nat \<times> World)" where
  "processCSVFile E parsed jobId delay_arg w =
     (case processCSVFile_try E parsed jobId delay_arg w of
        Inr r \<Rightarrow> Inr r
      | Inl (e, w') \<Rightarrow>
          (case updateTrackJobStatus jobId failed (now E w') (storage w') of
             Inl e' \<Rightarrow> Inl (e', w')
           | Inr (_, s) \<Rightarrow> Inl (e, stored s w')))"

text \<open>The world in which a run ends, returning or throwing.\<close>

definition world_of :: "(thrown \<times> World) + (nat \<times> World) \<Rightarrow> World" where
  "world_of r = (case r of Inl (_, w) \<Rightarrow> w | Inr (_, w) \<Rightarrow> w)"

section \<open>Scenarios\<close>

text \<open>
  The inputs at which the theorems below evaluate the code. \<open>one_job\<close> is a storage
  holding job 1, created at time 5 for the file \<^verbatim>\<open>a.csv\<close>; \<open>finished_job\<close> is
  that storage once the job is completed; \<open>start\<close> is the world in which a run on job 1
  begins, \<open>running\<close> that world once the run has marked the job as processing;
  \<open>two_jobs\<close> holds jobs 1 and 2.
\<close>

definition one_job :: MemStorage where
  "one_job = snd (createTrackJob \<lparr>filename = ''a.csv'', totalCount = 0\<rparr> 5 new_MemStorage)"

definition finished_job :: MemStorage where
  "finished_job =
     (case updateTrackJobStatus 1 completed 8 one_job of Inr (_, s) \<Rightarrow> s | Inl _ \<Rightarrow> one_job)"

definition start :: World where
  "start = \<lparr>storage = one_job, sent = [], calls = 0, timers = []\<rparr>"

definition running :: World where
  "running =
     (case updateTrackJobStatus 1 processing 0 one_job of
        Inr (_, s) \<Rightarrow> stored s start
      | Inl _ \<Rightarrow> start)"

definition two_jobs :: World where
  "two_jobs =
     \<lparr>storage = snd (createTrackJob \<lparr>filename = ''b.csv'', totalCount = 0\<rparr> 6 one_job),
      sent = [], calls = 0, timers = []\<rparr>"

text \<open>
  Surroundings: in \<open>quiet\<close> every lookup resolves to a record with the status
  \<^verbatim>\<open>Delivered\<close> alone, the clock reads the number of the storage call and no control
  request arrives; \<open>cancel_after_first\<close> adds one request, to cancel job 1, handled
  during the pacing wait after row 1; in \<open>always_fails\<close> every lookup throws.
\<close>

definition delivered :: PartialTrackResult where
  "delivered =
     \<lparr>p_status = Some ''Delivered'', p_origin = None, p_dest = None, p_pcs = None,
      p_grossWt = None, p_lastAct = None, p_lastActDt = None, p_doUrl = None\<rparr>"

definition quiet :: Env where
  "quiet = \<lparr>trackAWB = (\<lambda>n p a. Inr delivered), clock = (\<lambda>k. k), control = (\<lambda>n. [])\<rparr>"

definition cancel_after_first :: Env where
  "cancel_after_first = quiet\<lparr>control := (\<lambda>n. if n = 1 then [(1, cancel)] else [])\<rparr>"

definition always_fails :: Env where
  "always_fails =
     quiet\<lparr>trackAWB :=
       (\<lambda>n p a. Inl (Error ''Tracking request failed: 503 Service Unavailable''))\<rparr>"

text \<open>Records with the one column \<^verbatim>\<open>MAWB\<close>, and the results saved for the first two.\<close>

definition row_a :: CsvRecord where
  "row_a = [(''MAWB'', ''111-22222222'')]"

definition row_b :: CsvRecord where
  "row_b = [(''MAWB'', ''333-44444444'')]"

definition row_c :: CsvRecord where
  "row_c = [(''MAWB'', ''555-66666666'')]"

definition row_bad :: CsvRecord where
  "row_bad = [(''MAWB'', ''bad'')]"

definition result_a :: InsertTrackResult where
  "result_a =
     \<lparr>mawb = ''111-22222222'', prefix = ''111'', awbNo = ''22222222'',
      result_status = ''Delivered'', origin = [], dest = [], pcs = [], grossWt = [],
      lastAct = [], lastActDt = [], doUrl = []\<rparr>"

definition result_b :: InsertTrackResult where
  "result_b =
     \<lparr>mawb = ''333-44444444'', prefix = ''333'', awbNo = ''44444444'',
      result_status = ''Delivered'', origin = [], dest = [], pcs = [], grossWt = [],
      lastAct = [], lastActDt = [], doUrl = []\<rparr>"


text \<open>A field of the stored job \<open>i\<close>, when the job exists.\<close>

definition job_field :: "(TrackJob \<Rightarrow> 'a) \<Rightarrow> int \<Rightarrow> World \<Rightarrow> 'a option" where
  "job_field f i w = map_option f (getTrackJob i (storage w))"

section \<open>Association lists under update\<close>

lemma filter_update_other:
  "filter (\<lambda>p. fst p \<noteq> i) (AList.update i v xs) = filter (\<lambda>p. fst p \<noteq> i) xs"
  by (induction xs) auto

lemma map_of_update_other:
  "j \<noteq> i \<Longrightarrow> map_of (AList.update i v xs) j = map_of xs j"
  by (simp add: update_conv')

lemma map_of_update_same:
  "map_of (AList.update i v xs) i = Some v"
  by (simp add: update_conv')

lemma keys_update_present:
  "map_of xs i = Some u \<Longrightarrow> map fst (AList.update i v xs) = map fst xs"
  by (induction xs) (auto split: if_splits)

lemma one_job_holds:
  "getTrackJob 1 one_job =
     Some \<lparr>filename = ''a.csv'', totalCount = 0, job_id = 1, processedCount = 0,
           status = pending, createdAt = 5, updatedAt = 5\<rparr>"
  by (simp add: one_job_def createTrackJob_def new_MemStorage_def getTrackJob_def
      InsertTrackJob.extend_def TrackJob.fields_def Let_def)

section \<open>The two updates of a job\<close>

text \<open>
  C10. For a job that exists, \<open>updateTrackJobStatus\<close> returns and stores the job with
  only \<open>status\<close> and \<open>updatedAt\<close> replaced, \<open>updateTrackJobProgress\<close> the job with
  only \<open>processedCount\<close> and \<open>updatedAt\<close> replaced: id, filename, totalCount,
  createdAt and the field the operation does not name are as before. Every other job is
  as before, by lookup and in the listing (the entries of the other keys, in their order);
  the keys keep their order, and the results and both counters of the storage are untouched.
\<close>

theorem update_frame:
  assumes "getTrackJob i s = Some job"
  shows "\<exists>job1 s1 job2 s2.
           updateTrackJobStatus i st t s = Inr (job1, s1)
         \<and> updateTrackJobProgress i n t s = Inr (job2, s2)
         \<and> job1 = job\<lparr>status := st, updatedAt := t\<rparr>
         \<and> job2 = job\<lparr>processedCount := n, updatedAt := t\<rparr>
         \<and> getTrackJob i s1 = Some job1 \<and> getTrackJob i s2 = Some job2
         \<and> job_id job1 = job_id job \<and> filename job1 = filename job
         \<and> totalCount job1 = totalCount job \<and> createdAt job1 = createdAt job
         \<and> processedCount job1 = processedCount job
         \<and> job_id job2 = job_id job \<and> filename job2 = filename job
         \<and> totalCount job2 = totalCount job \<and> createdAt job2 = createdAt job
         \<and> status job2 = status job
         \<and> (\<forall>j. j \<noteq> i \<longrightarrow> getTrackJob j s1 = getTrackJob j s \<and> getTrackJob j s2 = getTrackJob j s)
         \<and> filter (\<lambda>p. fst p \<noteq> i) (trackJobs s1) = filter (\<lambda>p. fst p \<noteq> i) (trackJobs s)
         \<and> filter (\<lambda>p. fst p \<noteq> i) (trackJobs s2) = filter (\<lambda>p. fst p \<noteq> i) (trackJobs s)
         \<and> map fst (trackJobs s1) = map fst (trackJobs s)
         \<and> map fst (trackJobs s2) = map fst (trackJobs s)
         \<and> trackResults s1 = trackResults s \<and> trackResults s2 = trackResults s
         \<and> currentTrackJobId s1 = currentTrackJobId s \<and> currentTrackJobId s2 = currentTrackJobId s
         \<and> currentTrackResultId s1 = currentTrackResultId s
         \<and> currentTrackResultId s2 = currentTrackResultId s"
  using assms
  by (simp add: updateTrackJobStatus_def updateTrackJobProgress_def getTrackJob_def Let_def
      filter_update_other map_of_update_other map_of_update_same keys_update_present)

theorem update_frame_witness:
  "getTrackJob 1 one_job \<noteq> None
   \<and> (\<exists>job1 s1 job2 s2.
         updateTrackJobStatus 1 paused 9 one_job = Inr (job1, s1)
       \<and> updateTrackJobProgress 1 4 9 one_job = Inr (job2, s2)
       \<and> status job1 = paused \<and> processedCount job1 = 0 \<and> updatedAt job1 = 9
       \<and> processedCount job2 = 4 \<and> status job2 = pending \<and> updatedAt job2 = 9
       \<and> getTrackJob 2 s1 = getTrackJob 2 one_job)"
proof -
  note h = one_job_holds
  from update_frame [OF h, of paused 9 4] h show ?thesis
    by fastforce
qed

section \<open>Control requests\<close>

text \<open>
  A control request whose job exists is applied whatever the status of the job: the
  answer is 200 with the updated job, the stored job has the status paused for pause,
  processing for resume and cancelled for cancel, and the time of the request as
  \<open>updatedAt\<close>; its other fields, the other jobs, the order of the keys, the results and
  the counters are untouched. A request for a job that does not exist is answered with 404
  and the storage is as before.
\<close>

lemma control_always_applies:
  "(getTrackJob i s = None \<longrightarrow>
      control_route (Some i) (Inr a) t s = (Status404 ''Job not found'', s))
   \<and> (\<forall>job. getTrackJob i s = Some job \<longrightarrow>
        (\<exists>s'. control_route (Some i) (Inr a) t s
                 = (Status200
                      (job\<lparr>status := (case a of pause \<Rightarrow> paused | resume \<Rightarrow> processing
                                        | cancel \<Rightarrow> cancelled),
                           updatedAt := t\<rparr>)
                      (''Job '' @ (case a of pause \<Rightarrow> ''pause'' | resume \<Rightarrow> ''resume''
                                  | cancel \<Rightarrow> ''cancel'') @ ''d successfully''), s')
            \<and> getTrackJob i s'
                 = Some (job\<lparr>status := (case a of pause \<Rightarrow> paused | resume \<Rightarrow> processing
                                          | cancel \<Rightarrow> cancelled),
                             updatedAt := t\<rparr>)
            \<and> (\<forall>j. j \<noteq> i \<longrightarrow> getTrackJob j s' = getTrackJob j s)
            \<and> map fst (trackJobs s') = map fst (trackJobs s)
            \<and> trackResults s' = trackResults s
            \<and> currentTrackJobId s' = currentTrackJobId s
            \<and> currentTrackResultId s' = currentTrackResultId s))"
  by (cases a)
     (auto simp: control_route_def updateTrackJobStatus_def getTrackJob_def Let_def
        map_of_update_other map_of_update_same keys_update_present)

text \<open>
  C4. The route does not look at the status of the job. Job 1 is completed, so no loop
  is working on it and each of the three actions is invalid: pause (the job is not
  processing), resume (it is not paused), cancel (it is terminal). Each is answered with
  200 and its message of success, \<^verbatim>\<open>Job paused successfully\<close>,
  \<^verbatim>\<open>Job resumed successfully\<close>, \<^verbatim>\<open>Job canceld successfully\<close>, and leaves the
  stored job paused, processing, cancelled.
\<close>

theorem control_on_finished_job:
  "map_option status (getTrackJob 1 finished_job) = Some completed
   \<and> (case control_route (Some 1) (Inr pause) 9 finished_job of
        (Status200 job m, s') \<Rightarrow>
           status job = paused \<and> m = ''Job paused successfully''
         \<and> map_option status (getTrackJob 1 s') = Some paused
      | _ \<Rightarrow> False)
   \<and> (case control_route (Some 1) (Inr resume) 9 finished_job of
        (Status200 job m, s') \<Rightarrow>
           status job = processing \<and> m = ''Job resumed successfully''
         \<and> map_option status (getTrackJob 1 s') = Some processing
      | _ \<Rightarrow> False)
   \<and> (case control_route (Some 1) (Inr cancel) 9 finished_job of
        (Status200 job m, s') \<Rightarrow>
           status job = cancelled \<and> m = ''Job canceld successfully''
         \<and> map_option status (getTrackJob 1 s') = Some cancelled
      | _ \<Rightarrow> False)"
  by code_simp

section \<open>The identifier splitter\<close>

lemma remove_spaces_trim: "remove_spaces (trim s) = remove_spaces s"
proof -
  have drop: "filter (\<lambda>c. \<not> is_space c) (dropWhile is_space xs) = filter (\<lambda>c. \<not> is_space c) xs" for xs
    by (induction xs) auto
  show ?thesis
    by (simp add: remove_spaces_def trim_def drop flip: rev_filter)
qed

lemma split_on_nonempty: "split_on c s \<noteq> []"
  by (induction s) (auto split: list.splits)

lemma split_on_no_sep: "c \<notin> set s \<Longrightarrow> split_on c s = [s]"
  by (induction s) auto

lemma split_on_append: "c \<notin> set p \<Longrightarrow> split_on c (p @ c # q) = p # split_on c q"
  by (induction p) (auto split: list.splits)

lemma length_split_on: "length (split_on c s) = Suc (count_list s c)"
  by (induction s) (auto simp: split_on_nonempty split: list.splits)

lemma count_one_decomp:
  "count_list s c = 1 \<Longrightarrow> \<exists>p q. s = p @ c # q \<and> c \<notin> set p \<and> c \<notin> set q"
proof (induction s)
  case Nil
  then show ?case by simp
next
  case (Cons x xs)
  show ?case
  proof (cases "x = c")
    case True
    with Cons.prems have "count_list xs c = 0" by simp
    then have "c \<notin> set xs" by (simp add: count_list_0_iff)
    with True show ?thesis by (intro exI [of _ "[]"] exI [of _ xs]) simp
  next
    case False
    with Cons.prems have "count_list xs c = 1" by simp
    from Cons.IH [OF this] obtain p q where "xs = p @ c # q" "c \<notin> set p" "c \<notin> set q" by blast
    with False show ?thesis by (intro exI [of _ "x # p"] exI [of _ q]) simp
  qed
qed

lemma digit_not_sep: "is_digit c \<Longrightarrow> \<not> is_sep c"
  by (auto simp: is_digit_def is_sep_def)

lemma digits_Some: "digits n s = Some (g, r) \<longleftrightarrow> s = g @ r \<and> length g = n \<and> list_all is_digit g"
  by (auto simp: digits_def)

lemma digits_None: "digits n s = None \<longleftrightarrow> \<not> (\<exists>g r. s = g @ r \<and> length g = n \<and> list_all is_digit g)"
  using digits_Some [of n s] by (cases "digits n s") (auto simp del: digits_Some)


lemma with_sep_Some:
  "with_sep r = Some (g, x) \<longleftrightarrow>
     (\<exists>c. r = c # g @ x \<and> is_sep c \<and> length g = 8 \<and> list_all is_digit g)"
  by (cases r) (auto simp: with_sep_def digits_Some)

lemma match_here_sound:
  assumes "match_here s = Some (g1, g2)"
  shows "occurs s [] g1 g2"
proof -
  from assms obtain r where d3: "digits 3 s = Some (g1, r)"
    by (auto simp: match_here_def split: option.splits prod.splits)
  then have s: "s = g1 @ r" "length g1 = 3" "list_all is_digit g1"
    by (simp_all add: digits_Some)
  show ?thesis
  proof (cases "with_sep r")
    case (Some a)
    then obtain x where w: "with_sep r = Some (g2, x)"
      using assms d3 by (cases a) (auto simp: match_here_def)
    then obtain c where c: "r = c # g2 @ x" "is_sep c" "length g2 = 8" "list_all is_digit g2"
      by (auto simp: with_sep_Some)
    have "s = [] @ g1 @ [c] @ g2 @ x" using s c by simp
    moreover have "[c] = ''-'' \<or> [c] = '' ''" using c(2) by (simp add: is_sep_def)
    ultimately show ?thesis using s c unfolding occurs_def by blast
  next
    case None
    then obtain x where "digits 8 r = Some (g2, x)"
      using assms d3 by (auto simp: match_here_def split: option.splits prod.splits)
    then have "r = g2 @ x" "length g2 = 8" "list_all is_digit g2"
      by (simp_all add: digits_Some)
    then have "s = [] @ g1 @ [] @ g2 @ x" using s by simp
    then show ?thesis
      using s \<open>length g2 = 8\<close> \<open>list_all is_digit g2\<close> unfolding occurs_def by blast
  qed
qed

lemma match_here_complete:
  assumes "occurs s [] g1 g2"
  shows "match_here s = Some (g1, g2)"
proof -
  from assms obtain sep post where s: "s = g1 @ sep @ g2 @ post"
    and sep: "sep = [] \<or> sep = ''-'' \<or> sep = '' ''"
    and g1: "length g1 = 3" "list_all is_digit g1"
    and g2: "length g2 = 8" "list_all is_digit g2"
    unfolding occurs_def by auto
  have d3: "digits 3 s = Some (g1, sep @ g2 @ post)"
    using s g1 by (simp add: digits_Some)
  have d8: "digits 8 (g2 @ post) = Some (g2, post)"
    using g2 by (simp add: digits_Some)
  show ?thesis
  proof (cases "sep = []")
    case True
    from g2 obtain d g2' where "g2 = d # g2'" by (cases g2) auto
    with g2 have "with_sep (g2 @ post) = None"
      by (simp add: with_sep_def digit_not_sep)
    with True d3 d8 show ?thesis by (simp add: match_here_def)
  next
    case False
    with sep obtain c where c: "sep = [c]" "is_sep c" by (auto simp: is_sep_def)
    then have "with_sep (sep @ g2 @ post) = Some (g2, post)"
      using d8 by (simp add: with_sep_def)
    with d3 show ?thesis by (simp add: match_here_def)
  qed
qed

lemma occurs_Cons:
  "occurs (c # s) (c # pre) g1 g2 = occurs s pre g1 g2"
  by (simp add: occurs_def)

lemma occurs_Cons_pre:
  "occurs s (c # pre) g1 g2 \<Longrightarrow> \<exists>s'. s = c # s' \<and> occurs s' pre g1 g2"
  by (auto simp: occurs_def)

lemma regex_match_here:
  "match_here s = Some g \<Longrightarrow> regex_match s = Some g"
  by (cases s) simp_all

lemma regex_match_first:
  assumes "occurs s pre g1 g2"
    and "\<forall>pre' a b. occurs s pre' a b \<longrightarrow> length pre \<le> length pre'"
  shows "regex_match s = Some (g1, g2)"
  using assms
proof (induction pre arbitrary: s)
  case Nil
  then show ?case by (simp add: regex_match_here match_here_complete)
next
  case (Cons c pre)
  from occurs_Cons_pre [OF Cons.prems(1)] obtain s' where s': "s = c # s'" "occurs s' pre g1 g2"
    by blast
  have "match_here s = None"
  proof (cases "match_here s")
    case (Some g)
    then have "occurs s [] (fst g) (snd g)" by (simp add: match_here_sound)
    with Cons.prems(2) show ?thesis by fastforce
  qed simp
  then have "regex_match s = regex_match s'" using s' by simp
  moreover have "\<forall>pre' a b. occurs s' pre' a b \<longrightarrow> length pre \<le> length pre'"
  proof (intro allI impI)
    fix pre' a b assume "occurs s' pre' a b"
    then have "occurs s (c # pre') a b" using s' by (simp add: occurs_Cons)
    with Cons.prems(2) show "length pre \<le> length pre'" by fastforce
  qed
  ultimately show ?case using Cons.IH [OF s'(2)] by simp
qed

lemma regex_match_none:
  "\<forall>pre g1 g2. \<not> occurs s pre g1 g2 \<Longrightarrow> regex_match s = None"
proof (induction s)
  case Nil
  have "match_here [] = None" by (simp add: match_here_def digits_def)
  then show ?case by simp
next
  case (Cons c s)
  have "match_here (c # s) = None"
  proof (cases "match_here (c # s)")
    case (Some g)
    then have "occurs (c # s) [] (fst g) (snd g)" by (simp add: match_here_sound)
    with Cons.prems show ?thesis by blast
  qed simp
  moreover have "\<forall>pre g1 g2. \<not> occurs s pre g1 g2"
    using Cons.prems occurs_Cons [of c s] by blast
  ultimately show ?case using Cons.IH by simp
qed

lemma occurs_length: "occurs s pre g1 g2 \<Longrightarrow> 11 \<le> length s"
  by (auto simp: occurs_def)

text \<open>
  C7, as the specification states it, fails where a part is empty: \<^verbatim>\<open>-12345678901\<close>
  splits on its hyphen into an empty part and \<^verbatim>\<open>12345678901\<close>, which are not two
  non-empty parts, and the pattern occurs in it with the groups 123 and 45678901; the
  splitter returns the two parts of the split, the first of them empty, not the groups.
  Likewise \<^verbatim>\<open>123-\<close> is returned as 123 and the empty string.
\<close>

theorem splitMAWB_empty_part:
  "split_on CHR ''-'' (remove_spaces (trim ''-12345678901'')) = ['''', ''12345678901'']
   \<and> splitMAWB ''-12345678901'' = ('''', ''12345678901'')
   \<and> splitMAWB ''-12345678901'' \<noteq> (''123'', ''45678901'')
   \<and> splitMAWB ''123-'' = (''123'', '''')"
  by code_simp

text \<open>
  C7, amended. Let \<open>t\<close> be the input with its whitespace removed (trimming first changes
  nothing). When \<open>t\<close> holds exactly one hyphen, the splitter returns the text before it
  and the text after it as they are, empty or not. Otherwise, when the pattern (three
  digits, optional hyphen or space, eight digits) occurs in \<open>t\<close>, it returns the two
  groups of the leftmost occurrence; and when the pattern occurs nowhere, it returns both
  parts empty.
\<close>

theorem splitMAWB_cases:
  fixes raw :: string
  defines "t \<equiv> remove_spaces (trim raw)"
  shows "t = filter (\<lambda>c. \<not> is_space c) raw
       \<and> (count_list t CHR ''-'' = 1 \<longrightarrow>
            (\<exists>p q. t = p @ CHR ''-'' # q \<and> splitMAWB raw = (p, q)))
       \<and> (count_list t CHR ''-'' \<noteq> 1 \<longrightarrow>
            (\<forall>pre g1 g2.
               occurs t pre g1 g2
               \<and> (\<forall>pre' a b. occurs t pre' a b \<longrightarrow> length pre \<le> length pre')
               \<longrightarrow> splitMAWB raw = (g1, g2)))
       \<and> (count_list t CHR ''-'' \<noteq> 1 \<and> (\<forall>pre g1 g2. \<not> occurs t pre g1 g2) \<longrightarrow>
            splitMAWB raw = ([], []))"
proof (intro conjI impI allI)
  show "t = filter (\<lambda>c. \<not> is_space c) raw"
    by (simp add: t_def remove_spaces_trim) (simp add: remove_spaces_def)
next
  assume "count_list t CHR ''-'' = 1"
  from count_one_decomp [OF this] obtain p q
    where pq: "t = p @ CHR ''-'' # q" "CHR ''-'' \<notin> set p" "CHR ''-'' \<notin> set q" by blast
  then have "split_on CHR ''-'' t = [p, q]"
    by (simp add: split_on_append split_on_no_sep)
  then have "splitMAWB raw = (p, q)"
    by (simp add: splitMAWB_def t_def [symmetric])
  with pq show "\<exists>p q. t = p @ CHR ''-'' # q \<and> splitMAWB raw = (p, q)" by blast
next
  fix pre g1 g2
  assume n: "count_list t CHR ''-'' \<noteq> 1"
    and o: "occurs t pre g1 g2 \<and> (\<forall>pre' a b. occurs t pre' a b \<longrightarrow> length pre \<le> length pre')"
  from n have "length (split_on CHR ''-'' t) \<noteq> 2" by (simp add: length_split_on)
  moreover from o have "regex_match t = Some (g1, g2)" by (intro regex_match_first) blast+
  ultimately show "splitMAWB raw = (g1, g2)"
    by (simp add: splitMAWB_def t_def [symmetric])
next
  assume "count_list t CHR ''-'' \<noteq> 1 \<and> (\<forall>pre g1 g2. \<not> occurs t pre g1 g2)"
  then have "length (split_on CHR ''-'' t) \<noteq> 2" and "regex_match t = None"
    by (simp_all add: length_split_on regex_match_none)
  then show "splitMAWB raw = ([], [])"
    by (simp add: splitMAWB_def t_def [symmetric])
qed

theorem splitMAWB_cases_witness:
  "count_list (remove_spaces (trim '' 123-45678901 '')) CHR ''-'' = 1
   \<and> (\<exists>p q. remove_spaces (trim '' 123-45678901 '') = p @ CHR ''-'' # q
          \<and> splitMAWB '' 123-45678901 '' = (p, q))
   \<and> count_list (remove_spaces (trim ''12345678901'')) CHR ''-'' \<noteq> 1
   \<and> occurs (remove_spaces (trim ''12345678901'')) [] ''123'' ''45678901''
   \<and> splitMAWB ''12345678901'' = (''123'', ''45678901'')
   \<and> count_list (remove_spaces (trim ''ABCDEF'')) CHR ''-'' \<noteq> 1
   \<and> (\<forall>pre g1 g2. \<not> occurs (remove_spaces (trim ''ABCDEF'')) pre g1 g2)
   \<and> splitMAWB ''ABCDEF'' = ([], [])"
proof -
  have t1: "remove_spaces (trim '' 123-45678901 '') = ''123-45678901''" by code_simp
  have t2: "remove_spaces (trim ''12345678901'') = ''12345678901''" by code_simp
  have t3: "remove_spaces (trim ''ABCDEF'') = ''ABCDEF''" by code_simp
  have c1: "count_list (remove_spaces (trim '' 123-45678901 '')) CHR ''-'' = 1"
    by (simp add: t1)
  have c2: "count_list (remove_spaces (trim ''12345678901'')) CHR ''-'' \<noteq> 1"
    by (simp add: t2)
  have c3: "count_list (remove_spaces (trim ''ABCDEF'')) CHR ''-'' \<noteq> 1"
    by (simp add: t3)
  have d: "list_all is_digit ''123''" "list_all is_digit ''45678901''" by code_simp+
  have "''12345678901'' = [] @ ''123'' @ [] @ ''45678901'' @ []" by simp
  with d have o2: "occurs (remove_spaces (trim ''12345678901'')) [] ''123'' ''45678901''"
    unfolding occurs_def t2 by (intro exI [of _ "[]"]) simp
  have o3: "\<forall>pre g1 g2. \<not> occurs (remove_spaces (trim ''ABCDEF'')) pre g1 g2"
    using occurs_length [of "''ABCDEF''"] by (auto simp: t3)
  from splitMAWB_cases [of "'' 123-45678901 ''"] c1
  have r1: "\<exists>p q. remove_spaces (trim '' 123-45678901 '') = p @ CHR ''-'' # q
          \<and> splitMAWB '' 123-45678901 '' = (p, q)" by blast
  from splitMAWB_cases [of "''12345678901''"] c2 o2
  have r2: "splitMAWB ''12345678901'' = (''123'', ''45678901'')"
    by (metis le0 length_0_conv list.size(3))
  from splitMAWB_cases [of "''ABCDEF''"] c3 o3
  have r3: "splitMAWB ''ABCDEF'' = ([], [])" by blast
  from c1 r1 c2 o2 r2 c3 o3 r3 show ?thesis by blast
qed

section \<open>Control requests during a run\<close>

lemma control_route_job:
  "map_option (\<lambda>j. (filename j, totalCount j, job_id j, processedCount j, createdAt j))
       (getTrackJob k (snd (control_route x y t s)))
   = map_option (\<lambda>j. (filename j, totalCount j, job_id j, processedCount j, createdAt j))
       (getTrackJob k s)"
  by (cases "k = the x")
     (auto simp: control_route_def updateTrackJobStatus_def getTrackJob_def Let_def
        map_of_update_other map_of_update_same split: option.splits sum.splits)

lemma control_route_results:
  "trackResults (snd (control_route x y t s)) = trackResults s"
  by (auto simp: control_route_def updateTrackJobStatus_def Let_def
        split: option.splits sum.splits)

lemma handle_control_sent: "sent (handle_control E r w) = sent w"
  by (simp add: handle_control_def stored_def)

lemma handle_control_job:
  "map_option (\<lambda>j. (filename j, totalCount j, job_id j, processedCount j, createdAt j))
       (getTrackJob k (storage (handle_control E r w)))
   = map_option (\<lambda>j. (filename j, totalCount j, job_id j, processedCount j, createdAt j))
       (getTrackJob k (storage w))"
  by (simp add: handle_control_def stored_def control_route_job)

lemma handle_control_results:
  "trackResults (storage (handle_control E r w)) = trackResults (storage w)"
  by (simp add: handle_control_def stored_def control_route_results)

lemma fold_control_sent: "sent (fold (handle_control E) rs w) = sent w"
  by (induction rs arbitrary: w) (simp_all add: handle_control_sent)

lemma fold_control_job:
  "map_option (\<lambda>j. (filename j, totalCount j, job_id j, processedCount j, createdAt j))
       (getTrackJob k (storage (fold (handle_control E) rs w)))
   = map_option (\<lambda>j. (filename j, totalCount j, job_id j, processedCount j, createdAt j))
       (getTrackJob k (storage w))"
  by (induction rs arbitrary: w) (simp_all add: handle_control_job)

lemma fold_control_results:
  "trackResults (storage (fold (handle_control E) rs w)) = trackResults (storage w)"
  by (induction rs arbitrary: w) (simp_all add: handle_control_results)

lemma handle_requests_sent: "sent (handle_requests E n w) = sent w"
  by (simp add: handle_requests_def fold_control_sent)

lemma handle_requests_results:
  "trackResults (storage (handle_requests E n w)) = trackResults (storage w)"
  by (simp add: handle_requests_def fold_control_results)

lemma handle_requests_job:
  "map_option (\<lambda>j. (filename j, totalCount j, job_id j, processedCount j, createdAt j))
       (getTrackJob k (storage (handle_requests E n w)))
   = map_option (\<lambda>j. (filename j, totalCount j, job_id j, processedCount j, createdAt j))
       (getTrackJob k (storage w))"
  by (simp add: handle_requests_def fold_control_job)

lemma handle_requests_processed:
  "map_option processedCount (getTrackJob k (storage (handle_requests E n w)))
   = map_option processedCount (getTrackJob k (storage w))"
  using handle_requests_job [of k E n w]
  by (cases "getTrackJob k (storage (handle_requests E n w))"; cases "getTrackJob k (storage w)") auto

lemma handle_requests_exists:
  "(getTrackJob k (storage (handle_requests E n w)) = None) = (getTrackJob k (storage w) = None)"
  using handle_requests_job [of k E n w]
  by (cases "getTrackJob k (storage (handle_requests E n w))"; cases "getTrackJob k (storage w)") auto

lemma handle_requests_total:
  "map_option totalCount (getTrackJob k (storage (handle_requests E n w)))
   = map_option totalCount (getTrackJob k (storage w))"
  using handle_requests_job [of k E n w]
  by (cases "getTrackJob k (storage (handle_requests E n w))"; cases "getTrackJob k (storage w)") auto

lemma handle_control_timers: "timers (handle_control E r w) = timers w"
  by (simp add: handle_control_def stored_def)

lemma fold_control_timers: "timers (fold (handle_control E) rs w) = timers w"
  by (induction rs arbitrary: w) (simp_all add: handle_control_timers)

lemma handle_requests_timers: "timers (handle_requests E n w) = timers w"
  by (simp add: handle_requests_def fold_control_timers)

lemma pacing_wait_sent: "sent (pacing_wait E delay n w) = sent w"
  by (simp add: pacing_wait_def handle_requests_sent)

lemma pacing_wait_results:
  "trackResults (storage (pacing_wait E delay n w)) = trackResults (storage w)"
  by (simp add: pacing_wait_def handle_requests_results)

lemma pacing_wait_processed:
  "map_option processedCount (getTrackJob k (storage (pacing_wait E delay n w)))
   = map_option processedCount (getTrackJob k (storage w))"
  by (simp add: pacing_wait_def handle_requests_processed)

lemma pacing_wait_exists:
  "(getTrackJob k (storage (pacing_wait E delay n w)) = None) = (getTrackJob k (storage w) = None)"
  by (simp add: pacing_wait_def handle_requests_exists)

lemma pacing_wait_total:
  "map_option totalCount (getTrackJob k (storage (pacing_wait E delay n w)))
   = map_option totalCount (getTrackJob k (storage w))"
  by (simp add: pacing_wait_def handle_requests_total)

lemma pacing_wait_timers: "timers (pacing_wait E delay n w) = timers w @ [delay]"
  by (simp add: pacing_wait_def handle_requests_timers)

lemma track_and_save_jobs:
  "trackJobs (storage (track_and_save E jobId n raw pfx awb w)) = trackJobs (storage w)"
  by (simp add: track_and_save_def broadcastMessage_def stored_def createTrackResult_def Let_def
      split: sum.splits)

lemma process_record_runs:
  assumes "getTrackJob jobId (storage w) \<noteq> None" and "map_of row mawbKey \<noteq> None"
  shows "\<exists>w'. process_record E jobId mawbKey rowTotal delay n row w = Inr w'
           \<and> getTrackJob jobId (storage w') \<noteq> None"
proof -
  from assms(2) obtain raw where raw: "map_of row mawbKey = Some raw" by auto
  obtain pfx awb where sp: "splitMAWB raw = (pfx, awb)" by (cases "splitMAWB raw")
  show ?thesis
  proof (cases "pfx = [] \<or> awb = []")
    case True
    with raw sp assms(1) show ?thesis
      by (auto simp: process_record_def broadcastMessage_def)
  next
    case False
    define w1 where "w1 = track_and_save E jobId n raw pfx awb w"
    have "getTrackJob jobId (storage w1) \<noteq> None"
      using assms(1) by (simp add: getTrackJob_def w1_def track_and_save_jobs)
    then obtain job where job: "getTrackJob jobId (storage w1) = Some job" by auto
    define s2 where "s2 = (storage w1)\<lparr>trackJobs :=
      AList.update jobId (job\<lparr>processedCount := n, updatedAt := now E w1\<rparr>) (trackJobs (storage w1))\<rparr>"
    have upd: "updateTrackJobProgress jobId n (now E w1) (storage w1)
      = Inr (job\<lparr>processedCount := n, updatedAt := now E w1\<rparr>, s2)"
      using job by (simp add: updateTrackJobProgress_def s2_def Let_def)
    define w' where "w' = pacing_wait E delay n (broadcastMessage jobId (Progress n rowTotal) (stored s2 w1))"
    have step: "process_record E jobId mawbKey rowTotal delay n row w = Inr w'"
      using raw sp False upd by (simp add: process_record_def w'_def w1_def [symmetric])
    have "getTrackJob jobId s2 \<noteq> None"
      by (simp add: s2_def getTrackJob_def map_of_update_same)
    then have "getTrackJob jobId (storage w') \<noteq> None"
      by (simp add: w'_def pacing_wait_exists broadcastMessage_def stored_def)
    with step show ?thesis by blast
  qed
qed

lemma for_records_runs:
  assumes "getTrackJob jobId (storage w) \<noteq> None"
    and "list_all (\<lambda>r. map_of r mawbKey \<noteq> None) rows"
  shows "\<exists>w'. for_records E jobId mawbKey rowTotal delay rows n w = Inr (n + length rows, w')
           \<and> getTrackJob jobId (storage w') \<noteq> None"
  using assms
proof (induction rows arbitrary: n w)
  case Nil
  then show ?case by simp
next
  case (Cons row rows)
  from Cons.prems have "map_of row mawbKey \<noteq> None" by simp
  from process_record_runs [OF Cons.prems(1) this, of E rowTotal delay "Suc n"]
  obtain w1 where w1: "process_record E jobId mawbKey rowTotal delay (Suc n) row w = Inr w1"
    "getTrackJob jobId (storage w1) \<noteq> None" by blast
  from Cons.prems have "list_all (\<lambda>r. map_of r mawbKey \<noteq> None) rows" by simp
  from Cons.IH [OF w1(2) this, of "Suc n"] w1(1) show ?case by simp
qed

section \<open>A lookup that fails\<close>

text \<open>
  The digits that a template string writes for a number read back as that number, and
  a control request leaves a job with the status it had or with one of the three that the
  route sets.
\<close>

lemma read_nat_snoc: "read_nat (s @ [c]) = 10 * read_nat s + (of_char c - 48)"
  by (simp add: read_nat_def)

lemma digit_char: "k < 10 \<Longrightarrow> is_digit (char_of (48 + k)) \<and> (of_char (char_of (48 + k)) :: nat) = 48 + k"
  by (simp add: is_digit_def)

lemma show_nat_digits: "list_all is_digit (show_nat n) \<and> show_nat n \<noteq> []"
proof (induction n rule: show_nat.induct)
  case (1 n)
  show ?case
  proof (cases "n < 10")
    case True
    then show ?thesis by (subst (1 2) show_nat.simps) (simp add: digit_char)
  next
    case False
    with 1 have "list_all is_digit (show_nat (n div 10))" by simp
    moreover have "is_digit (char_of (48 + n mod 10))" by (simp add: digit_char)
    ultimately show ?thesis using False by (subst (1 2) show_nat.simps) simp
  qed
qed

lemma read_show_nat: "read_nat (show_nat n) = n"
proof (induction n rule: show_nat.induct)
  case (1 n)
  show ?case
  proof (cases "n < 10")
    case True
    then show ?thesis by (subst show_nat.simps) (simp add: read_nat_def digit_char)
  next
    case False
    with 1 have "read_nat (show_nat (n div 10)) = n div 10" by simp
    with False show ?thesis
      by (subst show_nat.simps) (simp add: read_nat_snoc digit_char)
  qed
qed

lemma control_route_status:
  "map_option status (getTrackJob k (snd (control_route x y t s)))
     \<in> {map_option status (getTrackJob k s), Some paused, Some processing, Some cancelled}"
proof (cases y)
  case (Inl e)
  then show ?thesis by (auto simp: control_route_def split: option.splits)
next
  case (Inr a)
  then show ?thesis
    by (cases a; cases "k = the x")
       (auto simp: control_route_def updateTrackJobStatus_def getTrackJob_def Let_def
          map_of_update_other map_of_update_same split: option.splits)
qed

lemma fold_control_status:
  "map_option status (getTrackJob k (storage (fold (handle_control E) rs w)))
     \<in> {map_option status (getTrackJob k (storage w)), Some paused, Some processing, Some cancelled}"
proof (induction rs arbitrary: w)
  case Nil
  then show ?case by simp
next
  case (Cons r rs)
  have a: "map_option status (getTrackJob k (storage (handle_control E r w)))
     \<in> {map_option status (getTrackJob k (storage w)), Some paused, Some processing, Some cancelled}"
    using control_route_status [of k "Some (fst r)" "Inr (snd r)" "now E w" "storage w"]
    by (simp add: handle_control_def stored_def)
  from Cons.IH [of "handle_control E r w"] a show ?case by auto
qed

lemma pacing_wait_status:
  "map_option status (getTrackJob k (storage (pacing_wait E delay n w)))
     \<in> {map_option status (getTrackJob k (storage w)), Some paused, Some processing, Some cancelled}"
  using fold_control_status [of k E "control E n" "w\<lparr>timers := timers w @ [delay]\<rparr>"]
  by (simp add: pacing_wait_def handle_requests_def)

lemma pacing_wait_quiet:
  "control E n = [] \<Longrightarrow> storage (pacing_wait E delay n w) = storage w"
  by (simp add: pacing_wait_def handle_requests_def)

text \<open>
  C9. Row \<open>n + 1\<close> of a job that exists carries a well-formed identifier and its lookup
  throws an error with the name \<open>ename\<close> and the message \<open>emsg\<close>. Then the body of
  the loop does not throw. It sends three events and no other: the info log, the error
  log \<^verbatim>\<open>[Row k] Error tracking <identifier>: <error>\<close>, where \<open>k\<close> is \<open>n + 1\<close>
  in decimal digits and the error is written as JavaScript writes it (name, colon,
  message), and the progress event for row \<open>n + 1\<close>. The stored processed count is
  \<open>n + 1\<close>; no result is saved; the status of the job is the one it had, unless a
  control request of the wait has set another (never failed, never completed), and with no
  such request the stored job differs from the one before only in the processed count and
  the time of the update. The loop goes on with the remaining rows from row number
  \<open>n + 1\<close> in the world the row left, and when each of them has the identifier column
  the loop visits them all, whatever their lookups do.
\<close>

theorem lookup_failure_continues:
  assumes "getTrackJob jobId (storage w) \<noteq> None"
    and "map_of row mawbKey = Some raw"
    and "splitMAWB raw = (pfx, awb)" and "pfx \<noteq> []" and "awb \<noteq> []"
    and "trackAWB E (Suc n) pfx awb = Inl (Thrown ename emsg)"
  shows "\<exists>w'. process_record E jobId mawbKey rowTotal delay (Suc n) row w = Inr w'
           \<and> sent w' = sent w @
               [(jobId, Log (''[Row '' @ show_nat (Suc n) @ ''] Tracking MAWB: '' @ raw
                               @ '' (prefix: '' @ pfx @ '', awbno: '' @ awb @ '')'') info),
                (jobId, Log (''[Row '' @ show_nat (Suc n) @ ''] Error tracking '' @ raw @ '': ''
                               @ (if ename = [] then emsg else if emsg = [] then ename
                                  else ename @ '': '' @ emsg)) error),
                (jobId, Progress (Suc n) rowTotal)]
           \<and> list_all is_digit (show_nat (Suc n)) \<and> read_nat (show_nat (Suc n)) = Suc n
           \<and> map_option processedCount (getTrackJob jobId (storage w')) = Some (Suc n)
           \<and> map_option status (getTrackJob jobId (storage w'))
               \<in> {map_option status (getTrackJob jobId (storage w)),
                   Some paused, Some processing, Some cancelled}
           \<and> (control E (Suc n) = [] \<longrightarrow>
                (\<exists>job t. getTrackJob jobId (storage w) = Some job
                   \<and> getTrackJob jobId (storage w')
                       = Some (job\<lparr>processedCount := Suc n, updatedAt := t\<rparr>)))
           \<and> trackResults (storage w') = trackResults (storage w)
           \<and> for_records E jobId mawbKey rowTotal delay (row # rest) n w
               = for_records E jobId mawbKey rowTotal delay rest (Suc n) w'
           \<and> (list_all (\<lambda>r. map_of r mawbKey \<noteq> None) rest \<longrightarrow>
                (\<exists>w''. for_records E jobId mawbKey rowTotal delay (row # rest) n w
                          = Inr (Suc n + length rest, w'')))"
proof -
  obtain job where job: "getTrackJob jobId (storage w) = Some job"
    using assms(1) by auto
  define w1 where "w1 = track_and_save E jobId (Suc n) raw pfx awb w"
  have w1_storage: "storage w1 = storage w"
    by (simp add: w1_def track_and_save_def assms(6) broadcastMessage_def)
  have w1_sent: "sent w1 = sent w @
               [(jobId, Log (''[Row '' @ show_nat (Suc n) @ ''] Tracking MAWB: '' @ raw
                               @ '' (prefix: '' @ pfx @ '', awbno: '' @ awb @ '')'') info),
                (jobId, Log (''[Row '' @ show_nat (Suc n) @ ''] Error tracking '' @ raw @ '': ''
                               @ (if ename = [] then emsg else if emsg = [] then ename
                                  else ename @ '': '' @ emsg)) error)]"
    by (simp add: w1_def track_and_save_def assms(6) broadcastMessage_def row_tag_def)
  define s2 where "s2 = (storage w)\<lparr>trackJobs :=
      AList.update jobId (job\<lparr>processedCount := Suc n, updatedAt := now E w1\<rparr>) (trackJobs (storage w))\<rparr>"
  have upd: "updateTrackJobProgress jobId (Suc n) (now E w1) (storage w1)
      = Inr (job\<lparr>processedCount := Suc n, updatedAt := now E w1\<rparr>, s2)"
    using job by (simp add: updateTrackJobProgress_def w1_storage s2_def Let_def)
  define w2 where "w2 = broadcastMessage jobId (Progress (Suc n) rowTotal) (stored s2 w1)"
  define w' where "w' = pacing_wait E delay (Suc n) w2"
  have step: "process_record E jobId mawbKey rowTotal delay (Suc n) row w = Inr w'"
    using assms(2-5) upd by (simp add: process_record_def w'_def w2_def w1_def [symmetric])
  have sent: "sent w' = sent w1 @ [(jobId, Progress (Suc n) rowTotal)]"
    by (simp add: w'_def w2_def pacing_wait_sent broadcastMessage_def stored_def)
  have s2_job: "getTrackJob jobId s2 = Some (job\<lparr>processedCount := Suc n, updatedAt := now E w1\<rparr>)"
    by (simp add: s2_def getTrackJob_def map_of_update_same)
  have w2_storage: "storage w2 = s2"
    by (simp add: w2_def broadcastMessage_def stored_def)
  have count: "map_option processedCount (getTrackJob jobId (storage w')) = Some (Suc n)"
    using s2_job by (simp add: w'_def pacing_wait_processed w2_storage)
  have "map_option status (getTrackJob jobId (storage w2)) = map_option status (getTrackJob jobId (storage w))"
    using s2_job job by (simp add: w2_storage)
  with pacing_wait_status [of jobId E delay "Suc n" w2]
  have stat: "map_option status (getTrackJob jobId (storage w'))
               \<in> {map_option status (getTrackJob jobId (storage w)),
                   Some paused, Some processing, Some cancelled}"
    by (simp add: w'_def)
  have quiet: "control E (Suc n) = [] \<longrightarrow>
                (\<exists>job t. getTrackJob jobId (storage w) = Some job
                   \<and> getTrackJob jobId (storage w')
                       = Some (job\<lparr>processedCount := Suc n, updatedAt := t\<rparr>))"
    using job s2_job by (auto simp: w'_def pacing_wait_quiet w2_storage)
  have results: "trackResults (storage w') = trackResults (storage w)"
    by (simp add: w'_def pacing_wait_results w2_storage s2_def)
  have loop: "for_records E jobId mawbKey rowTotal delay (row # rest) n w
               = for_records E jobId mawbKey rowTotal delay rest (Suc n) w'"
    using step by simp
  from count have exists: "getTrackJob jobId (storage w') \<noteq> None" by auto
  have rest: "list_all (\<lambda>r. map_of r mawbKey \<noteq> None) rest \<longrightarrow>
                (\<exists>w''. for_records E jobId mawbKey rowTotal delay (row # rest) n w
                          = Inr (Suc n + length rest, w''))"
  proof
    assume "list_all (\<lambda>r. map_of r mawbKey \<noteq> None) rest"
    from for_records_runs [OF exists this, of E rowTotal delay "Suc n"] loop
    show "\<exists>w''. for_records E jobId mawbKey rowTotal delay (row # rest) n w
                          = Inr (Suc n + length rest, w'')"
      by auto
  qed
  note digits = show_nat_digits [of "Suc n"] read_show_nat [of "Suc n"]
  show ?thesis
    using step sent w1_sent count stat quiet results loop rest digits
    by (intro exI [of _ w']) simp
qed

theorem lookup_failure_continues_witness:
  "getTrackJob 1 (storage running) \<noteq> None
   \<and> map_of row_a ''MAWB'' = Some ''111-22222222''
   \<and> splitMAWB ''111-22222222'' = (''111'', ''22222222'')
   \<and> trackAWB always_fails 1 ''111'' ''22222222''
       = Inl (Thrown ''Error'' ''Tracking request failed: 503 Service Unavailable'')
   \<and> control always_fails 1 = []
   \<and> list_all (\<lambda>r. map_of r ''MAWB'' \<noteq> None) [row_b]
   \<and> (\<exists>w'. process_record always_fails 1 ''MAWB'' 2 100 1 row_a running = Inr w'
         \<and> sent w' =
             [(1, Log ''[Row 1] Tracking MAWB: 111-22222222 (prefix: 111, awbno: 22222222)'' info),
              (1, Log ''[Row 1] Error tracking 111-22222222: Error: Tracking request failed: 503 Service Unavailable'' error),
              (1, Progress 1 2)]
         \<and> map_option processedCount (getTrackJob 1 (storage w')) = Some 1
         \<and> map_option status (getTrackJob 1 (storage w')) = Some processing
         \<and> trackResults (storage w') = []
         \<and> for_records always_fails 1 ''MAWB'' 2 100 [row_a, row_b] 0 running
             = for_records always_fails 1 ''MAWB'' 2 100 [row_b] 1 w')
   \<and> (\<exists>w''. for_records always_fails 1 ''MAWB'' 2 100 [row_a, row_b] 0 running = Inr (2, w''))"
proof -
  have j: "getTrackJob 1 (storage running)
      = Some \<lparr>filename = ''a.csv'', totalCount = 0, job_id = 1, processedCount = 0,
              status = processing, createdAt = 5, updatedAt = 0\<rparr>" by code_simp
  then have a: "getTrackJob 1 (storage running) \<noteq> None" by simp
  have b: "map_of row_a ''MAWB'' = Some ''111-22222222''" by code_simp
  have c: "splitMAWB ''111-22222222'' = (''111'', ''22222222'')" by code_simp
  have d: "trackAWB always_fails (Suc 0) ''111'' ''22222222''
       = Inl (Thrown ''Error'' ''Tracking request failed: 503 Service Unavailable'')"
    by (simp add: always_fails_def quiet_def Error_def)
  have e: "list_all (\<lambda>r. map_of r ''MAWB'' \<noteq> None) [row_b]" by (simp add: row_b_def)
  have q: "control always_fails (Suc 0) = []" by (simp add: always_fails_def quiet_def)
  have n1: "show_nat (Suc 0) = ''1''" by code_simp
  have s0: "sent running = []" by code_simp
  have r0: "trackResults (storage running) = []" by code_simp
  from lookup_failure_continues [OF a b c _ _ d, of 2 100 "[row_b]"] j q e n1 s0 r0
  show ?thesis using a b c d by auto
qed

text \<open>
  The whole run, for any lookups and any control requests: when the job exists, the file
  has a record, a column of the first record mentions MAWB and every record has that
  column, the run returns the number of records and leaves the job completed, with the
  completion event last.
\<close>

lemma run_completes:
  assumes "getTrackJob jobId (storage w) \<noteq> None"
    and "records = first # others"
    and "find_mawb (map fst first) = Some mawbKey"
    and "list_all (\<lambda>r. map_of r mawbKey \<noteq> None) records"
  shows "\<exists>w'. processCSVFile E (Inr records) jobId delay_arg w = Inr (length records, w')
           \<and> map_option status (getTrackJob jobId (storage w')) = Some completed
           \<and> last (sent w')
               = (jobId, Complete (''Tracking completed. Processed ''
                          @ show_nat (length records) @ '' records.''))"
proof -
  obtain job where job: "getTrackJob jobId (storage w) = Some job"
    using assms(1) by auto
  define s0 where "s0 = (storage w)\<lparr>trackJobs :=
      AList.update jobId (job\<lparr>status := processing, updatedAt := now E w\<rparr>) (trackJobs (storage w))\<rparr>"
  have upd0: "updateTrackJobStatus jobId processing (now E w) (storage w)
      = Inr (job\<lparr>status := processing, updatedAt := now E w\<rparr>, s0)"
    using job by (simp add: updateTrackJobStatus_def s0_def Let_def)
  define w0 where "w0 = handle_requests E 0 (stored s0 w)"
  have "getTrackJob jobId s0 \<noteq> None"
    by (simp add: s0_def getTrackJob_def map_of_update_same)
  then have "getTrackJob jobId (storage w0) \<noteq> None"
    by (simp add: w0_def handle_requests_exists stored_def)
  from for_records_runs [OF this assms(4), of E "length records" "default_100 delay_arg" 0]
  obtain w1 where w1: "for_records E jobId mawbKey (length records) (default_100 delay_arg) records 0 w0
        = Inr (length records, w1)" "getTrackJob jobId (storage w1) \<noteq> None"
    by auto
  then obtain job1 where job1: "getTrackJob jobId (storage w1) = Some job1" by auto
  define s2 where "s2 = (storage w1)\<lparr>trackJobs :=
      AList.update jobId (job1\<lparr>status := completed, updatedAt := now E w1\<rparr>) (trackJobs (storage w1))\<rparr>"
  have upd2: "updateTrackJobStatus jobId completed (now E w1) (storage w1)
      = Inr (job1\<lparr>status := completed, updatedAt := now E w1\<rparr>, s2)"
    using job1 by (simp add: updateTrackJobStatus_def s2_def Let_def)
  define w2 where "w2 = broadcastMessage jobId
      (Complete (''Tracking completed. Processed '' @ show_nat (length records) @ '' records.''))
      (stored s2 w1)"
  have "processCSVFile_try E (Inr records) jobId delay_arg w = Inr (length records, w2)"
    using assms(2,3) upd0 w1(1) upd2
    by (simp add: processCSVFile_try_def w0_def [symmetric] w2_def Let_def)
  then have run: "processCSVFile E (Inr records) jobId delay_arg w = Inr (length records, w2)"
    by (simp add: processCSVFile_def)
  have "map_option status (getTrackJob jobId (storage w2)) = Some completed"
    by (simp add: w2_def broadcastMessage_def stored_def s2_def getTrackJob_def map_of_update_same)
  moreover have "last (sent w2)
      = (jobId, Complete (''Tracking completed. Processed ''
                          @ show_nat (length records) @ '' records.''))"
    by (simp add: w2_def broadcastMessage_def)
  ultimately show ?thesis using run by blast
qed

section \<open>What no run does\<close>

text \<open>
  The stored total count of every job is the same after a run as before it, however the
  run ends: nothing in \<^verbatim>\<open>processCSVFile\<close>, and nothing in the control route, writes it.
\<close>

lemma update_status_total:
  "updateTrackJobStatus i st t s = Inr (j, s') \<Longrightarrow>
     map_option totalCount (getTrackJob k s') = map_option totalCount (getTrackJob k s)"
  by (cases "k = i")
     (auto simp: updateTrackJobStatus_def getTrackJob_def Let_def map_of_update_other
        map_of_update_same split: option.splits)

lemma update_progress_total:
  "updateTrackJobProgress i n t s = Inr (j, s') \<Longrightarrow>
     map_option totalCount (getTrackJob k s') = map_option totalCount (getTrackJob k s)"
  by (cases "k = i")
     (auto simp: updateTrackJobProgress_def getTrackJob_def Let_def map_of_update_other
        map_of_update_same split: option.splits)

lemma process_record_total:
  "process_record E jobId mawbKey rowTotal delay n row w = Inr w' \<Longrightarrow>
     map_option totalCount (getTrackJob k (storage w'))
     = map_option totalCount (getTrackJob k (storage w))"
  by (auto simp: process_record_def Let_def broadcastMessage_def stored_def pacing_wait_total
        getTrackJob_def [of k "storage (track_and_save _ _ _ _ _ _ _)"] track_and_save_jobs
        getTrackJob_def [of k "storage w", symmetric]
        dest!: update_progress_total [where k = k]
        split: option.splits prod.splits if_splits sum.splits)


lemma process_record_throw_total:
  "process_record E jobId mawbKey rowTotal delay n row w = Inl (e, w') \<Longrightarrow>
     map_option totalCount (getTrackJob k (storage w'))
     = map_option totalCount (getTrackJob k (storage w))"
  by (auto simp: process_record_def Let_def getTrackJob_def track_and_save_jobs
        split: option.splits prod.splits if_splits sum.splits)

lemma for_records_total:
  "map_option totalCount (getTrackJob k (storage (world_of (for_records E jobId mawbKey rowTotal delay rows n w))))
   = map_option totalCount (getTrackJob k (storage w))"
proof (induction rows arbitrary: n w)
  case Nil
  then show ?case by (simp add: world_of_def)
next
  case (Cons row rows)
  show ?case
  proof (cases "process_record E jobId mawbKey rowTotal delay (Suc n) row w")
    case (Inl a)
    obtain e w' where a: "a = (e, w')" by (cases a)
    from Inl a process_record_throw_total [of E jobId mawbKey rowTotal delay "Suc n" row w e w' k]
    show ?thesis by (simp add: world_of_def)
  next
    case (Inr w')
    then show ?thesis
      using process_record_total [OF Inr, of k] Cons.IH [of "Suc n" w'] by simp
  qed
qed

lemma processCSVFile_try_loop:
  assumes "records = first # others"
    and "find_mawb (map fst first) = Some mawbKey"
    and "updateTrackJobStatus jobId processing (now E w) (storage w) = Inr (j, s)"
  shows "processCSVFile_try E (Inr records) jobId delay_arg w =
     (case for_records E jobId mawbKey (length records) (default_100 delay_arg) records 0
             (handle_requests E 0 (stored s w)) of
        Inl e \<Rightarrow> Inl e
      | Inr (visited, w') \<Rightarrow>
          (case updateTrackJobStatus jobId completed (now E w') (storage w') of
             Inl e \<Rightarrow> Inl (e, w')
           | Inr (_, s') \<Rightarrow>
               Inr (visited,
                    broadcastMessage jobId
                      (Complete (''Tracking completed. Processed '' @ show_nat visited @ '' records.''))
                      (stored s' w'))))"
  using assms by (simp add: processCSVFile_try_def Let_def)

lemma processCSVFile_try_total:
  "map_option totalCount (getTrackJob k (storage (world_of (processCSVFile_try E parsed jobId delay_arg w))))
   = map_option totalCount (getTrackJob k (storage w))"
proof (cases parsed)
  case (Inl e)
  then show ?thesis by (simp add: processCSVFile_try_def world_of_def)
next
  case (Inr records)
  show ?thesis
  proof (cases records)
    case Nil
    with Inr show ?thesis by (simp add: processCSVFile_try_def world_of_def)
  next
    case (Cons first others)
    show ?thesis
    proof (cases "find_mawb (map fst first)")
      case None
      with Inr Cons show ?thesis by (simp add: processCSVFile_try_def world_of_def)
    next
      case (Some mawbKey)
      show ?thesis
      proof (cases "updateTrackJobStatus jobId processing (now E w) (storage w)")
        case (Inl e)
        with Inr Cons Some show ?thesis by (simp add: processCSVFile_try_def world_of_def)
      next
        case u: (Inr js)
        obtain j s where js: "js = (j, s)" by (cases js)
        define w0 where "w0 = handle_requests E 0 (stored s w)"
        have t0: "map_option totalCount (getTrackJob k (storage w0))
                  = map_option totalCount (getTrackJob k (storage w))"
          using update_status_total [OF u [unfolded js], of k]
          by (simp add: w0_def handle_requests_total stored_def)
        define r where "r = for_records E jobId mawbKey (length records) (default_100 delay_arg) records 0 w0"
        have t1: "map_option totalCount (getTrackJob k (storage (world_of r)))
                  = map_option totalCount (getTrackJob k (storage w))"
          using for_records_total [of k E jobId mawbKey "length records" "default_100 delay_arg" records 0 w0] t0
          by (simp add: r_def)
        note loop = processCSVFile_try_loop [OF Cons Some u [unfolded js],
            where delay_arg = delay_arg, folded w0_def, folded r_def]
        show ?thesis
        proof (cases r)
          case (Inl a)
          then have "processCSVFile_try E parsed jobId delay_arg w = Inl a"
            using loop by (simp add: \<open>parsed = Inr records\<close>)
          with t1 Inl show ?thesis by simp
        next
          case v: (Inr nw)
          obtain visited w' where nw: "nw = (visited, w')" by (cases nw)
          from t1 v nw have t2: "map_option totalCount (getTrackJob k (storage w'))
                  = map_option totalCount (getTrackJob k (storage w))"
            by (simp add: world_of_def)
          show ?thesis
          proof (cases "updateTrackJobStatus jobId completed (now E w') (storage w')")
            case (Inl e)
            then have "processCSVFile_try E parsed jobId delay_arg w = Inl (e, w')"
              using loop v nw by (simp add: \<open>parsed = Inr records\<close>)
            with t2 show ?thesis by (simp add: world_of_def)
          next
            case c: (Inr js')
            obtain j' s' where js': "js' = (j', s')" by (cases js')
            have "processCSVFile_try E parsed jobId delay_arg w
                  = Inr (visited, broadcastMessage jobId
                      (Complete (''Tracking completed. Processed '' @ show_nat visited @ '' records.''))
                      (stored s' w'))"
              using loop v nw c js' by (simp add: \<open>parsed = Inr records\<close>)
            with t2 update_status_total [OF c [unfolded js'], of k] show ?thesis
              by (simp add: world_of_def broadcastMessage_def stored_def)
          qed
        qed
      qed
    qed
  qed
qed

lemma run_keeps_total:
  "map_option totalCount (getTrackJob k (storage (world_of (processCSVFile E parsed jobId delay_arg w))))
   = map_option totalCount (getTrackJob k (storage w))"
proof (cases "processCSVFile_try E parsed jobId delay_arg w")
  case (Inr r)
  with processCSVFile_try_total [of k E parsed jobId delay_arg w] show ?thesis
    by (simp add: processCSVFile_def)
next
  case (Inl a)
  obtain e w' where a: "a = (e, w')" by (cases a)
  from processCSVFile_try_total [of k E parsed jobId delay_arg w] Inl a
  have t: "map_option totalCount (getTrackJob k (storage w'))
           = map_option totalCount (getTrackJob k (storage w))"
    by (simp add: world_of_def)
  show ?thesis
  proof (cases "updateTrackJobStatus jobId failed (now E w') (storage w')")
    case (Inl e')
    with \<open>processCSVFile_try E parsed jobId delay_arg w = Inl a\<close> a t show ?thesis
      by (simp add: processCSVFile_def world_of_def)
  next
    case u: (Inr js)
    obtain j s where js: "js = (j, s)" by (cases js)
    from update_status_total [OF u [unfolded js], of k] t
      \<open>processCSVFile_try E parsed jobId delay_arg w = Inl a\<close> a u js
    show ?thesis
      by (simp add: processCSVFile_def world_of_def stored_def)
  qed
qed

text \<open>
  A row whose identifier does not parse only sends its warning: the storage, and with it
  the stored processed count, is as before the row.
\<close>

lemma skipped_row:
  assumes "map_of row mawbKey = Some raw" and "splitMAWB raw = (pfx, awb)"
    and "pfx = [] \<or> awb = []"
  shows "process_record E jobId mawbKey rowTotal delay n row w
           = Inr (w\<lparr>sent := sent w @
                    [(jobId, Log (row_tag n @ ''Skipping invalid MAWB: '' @ raw) warn)]\<rparr>)"
  using assms by (auto simp: process_record_def broadcastMessage_def)

text \<open>The query for the results of a job returns the same list for every job id.\<close>

lemma query_ignores_job:
  "getTrackResultsByJob j s = getTrackResultsByJob k s"
  by (simp add: getTrackResultsByJob_def)

section \<open>The pacing interval of a new job\<close>


text \<open>
  The loop sets its timer with the delay it was given and with nothing else: the timers
  of a run are copies of that delay, one for each row that is not skipped and does not
  throw.
\<close>

lemma track_and_save_timers:
  "timers (track_and_save E jobId n raw pfx awb w) = timers w"
  by (simp add: track_and_save_def broadcastMessage_def stored_def Let_def split: sum.splits)

lemma row_waits_delay:
  assumes "process_record E jobId mawbKey rowTotal delay n row w = Inr w'"
    and "map_of row mawbKey = Some raw" and "splitMAWB raw = (pfx, awb)"
    and "pfx \<noteq> []" and "awb \<noteq> []"
  shows "timers w' = timers w @ [delay]"
  using assms
  by (auto simp: process_record_def Let_def pacing_wait_timers broadcastMessage_def stored_def
        track_and_save_timers split: sum.splits prod.splits)









section \<open>Where the code departs from the specification\<close>

text \<open>
  C1. The loop never reads the status of its job. Three rows with well-formed
  identifiers, lookups that succeed, and the request to cancel job 1 handled during the
  pacing wait after row 1. When that wait ends, one row has been visited, the stored
  processed count is 1 and the stored status is cancelled. Yet the run visits all three
  rows and returns 3, three results are saved, the stored processed count is 3, the
  progress events count to 3, the completion event says 3 records, and the job ends
  completed, the status the request had set being overwritten. (By \<open>run_completes\<close>
  above this is so for every run and every control request.)
\<close>

theorem cancel_not_observed:
  "(case for_records cancel_after_first 1 ''MAWB'' 3 100 [row_a] 0 running of
      Inl _ \<Rightarrow> False
    | Inr (k, w1) \<Rightarrow>
        k = 1
      \<and> job_field status 1 w1 = Some cancelled
      \<and> job_field processedCount 1 w1 = Some 1)
   \<and> (case processCSVFile cancel_after_first (Inr [row_a, row_b, row_c]) 1 (Some 100) start of
        Inl _ \<Rightarrow> False
      | Inr (n, w) \<Rightarrow>
          n = 3
        \<and> job_field processedCount 1 w = Some 3
        \<and> job_field status 1 w = Some completed
        \<and> length (trackResults (storage w)) = 3
        \<and> filter (\<lambda>e. case snd e of Progress _ _ \<Rightarrow> True | Complete _ \<Rightarrow> True | _ \<Rightarrow> False)
             (sent w)
            = [(1, Progress 1 3), (1, Progress 2 3), (1, Progress 3 3),
               (1, Complete ''Tracking completed. Processed 3 records.'')])"
  by code_simp

text \<open>
  C2. Two rows and the same request. After row 1 and the pacing wait that follows it the
  stored status of job 1 is cancelled, a terminal status; the loop goes on from that world
  with row 2 and sends, for job 1, two logs, a result event and a progress event. These
  are the events of the whole run after that moment, followed by the completion event.
\<close>

theorem events_after_cancel:
  "(case for_records cancel_after_first 1 ''MAWB'' 2 100 [row_a] 0 running of
      Inl _ \<Rightarrow> False
    | Inr (n1, w1) \<Rightarrow>
        n1 = 1
      \<and> job_field status 1 w1 = Some cancelled
      \<and> for_records cancel_after_first 1 ''MAWB'' 2 100 [row_a, row_b] 0 running
          = for_records cancel_after_first 1 ''MAWB'' 2 100 [row_b] n1 w1
      \<and> (case for_records cancel_after_first 1 ''MAWB'' 2 100 [row_b] n1 w1 of
            Inl _ \<Rightarrow> False
          | Inr (n2, w2) \<Rightarrow>
              sent w2 = sent w1 @
                [(1, Log ''[Row 2] Tracking MAWB: 333-44444444 (prefix: 333, awbno: 44444444)'' info),
                 (1, Log ''[Row 2] Success: 333-44444444'' success),
                 (1, Result result_b),
                 (1, Progress 2 2)])
      \<and> (case processCSVFile cancel_after_first (Inr [row_a, row_b]) 1 (Some 100) start of
            Inl _ \<Rightarrow> False
          | Inr (n, w) \<Rightarrow>
              sent w = sent w1 @
                [(1, Log ''[Row 2] Tracking MAWB: 333-44444444 (prefix: 333, awbno: 44444444)'' info),
                 (1, Log ''[Row 2] Success: 333-44444444'' success),
                 (1, Result result_b),
                 (1, Progress 2 2),
                 (1, Complete ''Tracking completed. Processed 2 records.'')]))"
  by code_simp

text \<open>
  C3. \<open>getTrackResultsByJob\<close> does not use its argument, and a stored result names no
  job. Job 1 runs on one record, then job 2 on another; the result events carry their
  job ids, 1 for the first identifier and 2 for the second. The query for job 2 returns
  both results, in insertion order, the same list as the query for job 1.
\<close>

theorem results_of_other_job:
  "(case processCSVFile quiet (Inr [row_a]) 1 (Some 100) two_jobs of
      Inl _ \<Rightarrow> False
    | Inr (_, w1) \<Rightarrow>
       (case processCSVFile quiet (Inr [row_b]) 2 (Some 100) w1 of
          Inl _ \<Rightarrow> False
        | Inr (_, w2) \<Rightarrow>
            filter (\<lambda>e. case snd e of Result _ \<Rightarrow> True | _ \<Rightarrow> False) (sent w2)
              = [(1, Result result_a), (2, Result result_b)]
          \<and> map InsertTrackResult.truncate (getTrackResultsByJob 2 (storage w2)) = [result_a, result_b]
          \<and> getTrackResultsByJob 2 (storage w2) = getTrackResultsByJob 1 (storage w2)))"
  by code_simp

text \<open>
  C5. A row whose identifier does not parse leaves the loop body at \<^verbatim>\<open>continue\<close>,
  before the progress update. Two rows, the second with the identifier \<^verbatim>\<open>bad\<close>: the
  run returns 2 and its completion event says 2 records, but the stored processed count
  stays 1 and no progress event is sent for row 2; the events are exactly the six listed.
\<close>

theorem skipped_row_no_progress:
  "(case processCSVFile quiet (Inr [row_a, row_bad]) 1 (Some 100) start of
      Inl _ \<Rightarrow> False
    | Inr (n, w) \<Rightarrow>
        n = 2
      \<and> job_field processedCount 1 w = Some 1
      \<and> sent w =
          [(1, Log ''[Row 1] Tracking MAWB: 111-22222222 (prefix: 111, awbno: 22222222)'' info),
           (1, Log ''[Row 1] Success: 111-22222222'' success),
           (1, Result result_a),
           (1, Progress 1 2),
           (1, Log ''[Row 2] Skipping invalid MAWB: bad'' warn),
           (1, Complete ''Tracking completed. Processed 2 records.'')])"
  by code_simp

text \<open>
  C6. No operation of the storage writes \<open>totalCount\<close>, which the route sets to 0 when
  it creates the job. One row with a well-formed identifier: the progress event says 1 of
  1, and the stored job ends with the processed count 1 and the total count 0. (By
  \<open>run_keeps_total\<close> above the stored total of a job created by the file route is 0
  after every run.)
\<close>

theorem processed_exceeds_total:
  "(case processCSVFile quiet (Inr [row_a]) 1 (Some 100) start of
      Inl _ \<Rightarrow> False
    | Inr (n, w) \<Rightarrow>
        job_field processedCount 1 w = Some 1
      \<and> job_field totalCount 1 w = Some 0
      \<and> job_field status 1 w = Some completed
      \<and> (1, Progress 1 1) \<in> set (sent w))"
  by code_simp

end
